theory Spec2Isabelle
  imports Complex_Main "HOL-Library.AList" "HOL-Library.Char_ord" "HOL-Library.List_Lexorder"
    "HOL-Library.Product_Lexorder" "HOL-Library.Monad_Syntax"
begin

section \<open>Floats, values and trait profiles (services/matching.py)\<close>

text \<open>
  A Python float is a finite number, one of the two infinities, or NaN. Finite floats are
  modelled as reals, so rounding error, the sign of zero and the overflow of finite
  arithmetic are outside the model; the infinities and NaN are values of the model, with the
  IEEE rules Python follows: NaN absorbs every arithmetic operation and every comparison
  with NaN is false.
\<close>

datatype pyfloat = Fin real | PosInf | NegInf | NaN

instantiation pyfloat :: "{uminus, plus, minus, times, abs, ord}"
begin

fun uminus_pyfloat :: "pyfloat \<Rightarrow> pyfloat" where
  "uminus_pyfloat (Fin a) = Fin (- a)"
| "uminus_pyfloat PosInf = NegInf"
| "uminus_pyfloat NegInf = PosInf"
| "uminus_pyfloat NaN = NaN"

fun plus_pyfloat :: "pyfloat \<Rightarrow> pyfloat \<Rightarrow> pyfloat" where
  "plus_pyfloat NaN b = NaN"
| "plus_pyfloat a NaN = NaN"
| "plus_pyfloat (Fin a) (Fin b) = Fin (a + b)"
| "plus_pyfloat PosInf NegInf = NaN"
| "plus_pyfloat NegInf PosInf = NaN"
| "plus_pyfloat PosInf b = PosInf"
| "plus_pyfloat a PosInf = PosInf"
| "plus_pyfloat NegInf b = NegInf"
| "plus_pyfloat a NegInf = NegInf"

definition minus_pyfloat :: "pyfloat \<Rightarrow> pyfloat \<Rightarrow> pyfloat" where
  "minus_pyfloat a b = a + (- b)"

fun times_pyfloat :: "pyfloat \<Rightarrow> pyfloat \<Rightarrow> pyfloat" where
  "times_pyfloat NaN b = NaN"
| "times_pyfloat a NaN = NaN"
| "times_pyfloat (Fin a) (Fin b) = Fin (a * b)"
| "times_pyfloat (Fin a) PosInf = (if a = 0 then NaN else if 0 < a then PosInf else NegInf)"
| "times_pyfloat (Fin a) NegInf = (if a = 0 then NaN else if 0 < a then NegInf else PosInf)"
| "times_pyfloat PosInf (Fin b) = (if b = 0 then NaN else if 0 < b then PosInf else NegInf)"
| "times_pyfloat NegInf (Fin b) = (if b = 0 then NaN else if 0 < b then NegInf else PosInf)"
| "times_pyfloat PosInf PosInf = PosInf"
| "times_pyfloat PosInf NegInf = NegInf"
| "times_pyfloat NegInf PosInf = NegInf"
| "times_pyfloat NegInf NegInf = PosInf"

fun abs_pyfloat :: "pyfloat \<Rightarrow> pyfloat" where
  "abs_pyfloat (Fin a) = Fin \<bar>a\<bar>"
| "abs_pyfloat PosInf = PosInf"
| "abs_pyfloat NegInf = PosInf"
| "abs_pyfloat NaN = NaN"

fun less_pyfloat :: "pyfloat \<Rightarrow> pyfloat \<Rightarrow> bool" where
  "less_pyfloat NaN b = False"
| "less_pyfloat a NaN = False"
| "less_pyfloat (Fin a) (Fin b) = (a < b)"
| "less_pyfloat a NegInf = False"
| "less_pyfloat NegInf b = True"
| "less_pyfloat PosInf b = False"
| "less_pyfloat a PosInf = True"

definition less_eq_pyfloat :: "pyfloat \<Rightarrow> pyfloat \<Rightarrow> bool" where
  "less_eq_pyfloat a b = (a < b \<or> (a = b \<and> a \<noteq> NaN))"

instance ..

end

text \<open>Division is only ever by a positive finite constant (a literal, or the square root
  of a positive list length), given here as a real.\<close>

fun fdiv :: "pyfloat \<Rightarrow> real \<Rightarrow> pyfloat" where
  "fdiv (Fin a) c = Fin (a / c)"
| "fdiv PosInf c = PosInf"
| "fdiv NegInf c = NegInf"
| "fdiv NaN c = NaN"

text \<open>\<open>x ** 0.5\<close>, applied to a sum of squares only (never to a negative number).\<close>

fun fsqrt :: "pyfloat \<Rightarrow> pyfloat" where
  "fsqrt (Fin a) = Fin (sqrt a)"
| "fsqrt PosInf = PosInf"
| "fsqrt NegInf = PosInf"
| "fsqrt NaN = NaN"

text \<open>Python's \<open>max(a, b)\<close> and \<open>min(a, b)\<close> keep the first argument unless the second
  compares strictly greater (smaller); with one NaN argument the result depends on the
  order of the arguments.\<close>

definition pymax :: "pyfloat \<Rightarrow> pyfloat \<Rightarrow> pyfloat" where
  "pymax a b = (if b > a then b else a)"

definition pymin :: "pyfloat \<Rightarrow> pyfloat \<Rightarrow> pyfloat" where
  "pymin a b = (if b < a then b else a)"

text \<open>\<open>round(x, 6)\<close>: to six decimals, halves to the even neighbour; infinities and NaN
  are returned unchanged. The rounding is that of the exact real number: Python rounds the
  binary float, which at a decimal tie can differ from this by \<open>1e-6\<close>.\<close>

definition round_half_even :: "real \<Rightarrow> int" where
  "round_half_even y =
    (let f = \<lfloor>y\<rfloor>; d = y - of_int f in
     if d < 1/2 then f else if d > 1/2 then f + 1 else if even f then f else f + 1)"

definition round6 :: "real \<Rightarrow> real" where
  "round6 x = of_int (round_half_even (x * 1000000)) / 1000000"

fun fround6 :: "pyfloat \<Rightarrow> pyfloat" where
  "fround6 (Fin a) = Fin (round6 a)"
| "fround6 PosInf = PosInf"
| "fround6 NegInf = NegInf"
| "fround6 NaN = NaN"

text \<open>
  A dictionary value that the scorer only ever passes to \<open>float()\<close> is modelled by what
  \<open>float()\<close> does with it: \<open>PNone\<close> is Python's \<open>None\<close>; \<open>PNum x\<close> a value on which
  \<open>float()\<close> returns \<open>x\<close> (an int, a bool, a float, a numeric string, including
  \<open>"nan"\<close> and \<open>"inf"\<close>); \<open>PBad\<close> a value on which \<open>float()\<close> raises \<open>TypeError\<close> or
  \<open>ValueError\<close> (a container, a non-numeric string); \<open>PHuge\<close> a value on which
  \<open>float()\<close> raises \<open>OverflowError\<close> (an int beyond the float range, such as
  \<open>10**400\<close>).

  A call that raises has the result \<open>None\<close>; the exceptions of the scorer are the
  \<open>OverflowError\<close> of \<open>float()\<close>, which \<open>_to_float\<close> does not catch, and the
  \<open>AttributeError\<close> of \<open>.get\<close> on a \<open>dimensions\<close> entry that is not a dictionary.
\<close>

datatype pyval = PNone | PNum pyfloat | PBad | PHuge

text \<open>The value under the key \<open>dimensions\<close>: a dictionary, or a truthy value that is not
  one (a non-empty list or string, a non-zero number). A falsy value (\<open>None\<close>, \<open>[]\<close>,
  \<open>0\<close>) is replaced by \<open>{}\<close> in \<open>_dim\<close> and is modelled as the empty dictionary.\<close>

datatype dimensions = Dims "string \<rightharpoonup> pyval" | NotADict

text \<open>
  A trait profile is a dictionary. Each field below is one key the scorer reads. The key
  \<open>dimensions\<close> is also tested for presence, so it is optional here; every other
  sub-dictionary is only read through \<open>(traits or {}).get(key) or {}\<close>, where an absent key,
  \<open>None\<close> and the empty dictionary all behave as the empty map, and is a dictionary in the
  model. Values under \<open>life\<close> and \<open>life_constraints\<close> are \<open>str | None\<close>: \<open>Some None\<close> is a
  key holding \<open>None\<close>.
\<close>

record traits =
  t_dimensions :: "dimensions option"
  t_life :: "string \<rightharpoonup> string option"
  t_life_constraints :: "string \<rightharpoonup> string option"
  t_big5 :: "string \<rightharpoonup> pyval"
  t_conflict_repair :: "string \<rightharpoonup> pyval"
  t_life_preferences :: "string \<rightharpoonup> pyval"
  t_modifiers :: "string \<rightharpoonup> (string \<rightharpoonup> pyval)"

definition empty_traits :: traits where
  "empty_traits = \<lparr> t_dimensions = None, t_life = Map.empty, t_life_constraints = Map.empty,
     t_big5 = Map.empty, t_conflict_repair = Map.empty, t_life_preferences = Map.empty,
     t_modifiers = Map.empty \<rparr>"

text \<open>The result of the scorer: \<open>score_total\<close> and the fields of \<open>score_breakdown\<close>.
  \<open>extras\<close> holds the remaining numeric keys of the breakdown (\<open>base_score\<close> and, on the
  legacy path, the similarity figures).\<close>

record comp_result =
  score_total :: pyfloat
  kids_hard_check :: bool
  gates :: "string list"
  categories :: "(string \<times> pyfloat) list"
  components :: "(string \<times> pyfloat) list"
  penalties :: "(string \<times> pyfloat) list"
  extras :: "(string \<times> pyfloat) list"

text \<open>\<open>_to_float\<close>: the default for \<open>None\<close> and for the two exceptions it catches.\<close>

definition to_float :: "pyval \<Rightarrow> pyfloat \<Rightarrow> pyfloat option" where
  "to_float v dflt =
    (case v of PNone \<Rightarrow> Some dflt | PNum x \<Rightarrow> Some x | PBad \<Rightarrow> Some dflt | PHuge \<Rightarrow> None)"

text \<open>\<open>d.get(k)\<close>: \<open>None\<close> when the key is absent.\<close>

definition dict_get :: "(string \<rightharpoonup> pyval) \<Rightarrow> string \<Rightarrow> pyval" where
  "dict_get d k = (case d k of None \<Rightarrow> PNone | Some v \<Rightarrow> v)"

text \<open>\<open>float(cfg.get(k, default))\<close> on a \<open>dict[str, float]\<close>.\<close>

definition cfg_get :: "(string \<rightharpoonup> pyfloat) \<Rightarrow> string \<Rightarrow> pyfloat \<Rightarrow> pyfloat" where
  "cfg_get cfg k dflt = (case cfg k of None \<Rightarrow> dflt | Some v \<Rightarrow> v)"

definition kids_hard_mismatch :: "string option \<Rightarrow> string option \<Rightarrow> bool" where
  "kids_hard_mismatch k1 k2 =
    (if k1 = None \<or> k1 = Some [] \<or> k2 = None \<or> k2 = Some [] then False
     else if k1 = Some ''unsure'' \<or> k2 = Some ''unsure'' then False
     else (k1 \<in> {Some ''yes'', Some ''probably''} \<and> k2 \<in> {Some ''no'', Some ''probably_not''})
        \<or> (k2 \<in> {Some ''yes'', Some ''probably''} \<and> k1 \<in> {Some ''no'', Some ''probably_not''}))"

definition sim :: "pyfloat \<Rightarrow> pyfloat \<Rightarrow> pyfloat" where
  "sim a b = pymax (Fin 0) (Fin 1 - \<bar>a - b\<bar>)"

definition comp :: "pyfloat \<Rightarrow> pyfloat \<Rightarrow> pyfloat \<Rightarrow> pyfloat \<Rightarrow> pyfloat" where
  "comp a b target_sum extreme_penalty_threshold =
    (let base = pymax (Fin 0) (Fin 1 - \<bar>(a + b) - target_sum\<bar>) in
     if \<bar>a - b\<bar> > extreme_penalty_threshold then base * Fin 0.75 else base)"

text \<open>\<open>_dim\<close>; every call site uses the default \<open>0.5\<close>.\<close>

definition dim :: "traits \<Rightarrow> string \<Rightarrow> pyfloat option" where
  "dim t key =
    (case t_dimensions t of
       None \<Rightarrow> to_float (dict_get Map.empty key) (Fin 0.5)
     | Some (Dims d) \<Rightarrow> to_float (dict_get d key) (Fin 0.5)
     | Some NotADict \<Rightarrow> None)"

definition life :: "traits \<Rightarrow> string \<Rightarrow> string option \<Rightarrow> string option" where
  "life t key dflt =
    (case t_life t key of
       Some v \<Rightarrow> v
     | None \<Rightarrow>
         if key = ''kids_intent'' then
           (case t_life_constraints t ''kids_preference'' of Some v \<Rightarrow> v | None \<Rightarrow> dflt)
         else if key = ''kids_timeline'' then
           (case t_life_constraints t ''kids_timeline'' of Some v \<Rightarrow> v | None \<Rightarrow> dflt)
         else dflt)"

text \<open>\<open>str(v)\<close> for \<open>v : str | None\<close>.\<close>

definition py_str :: "string option \<Rightarrow> string" where
  "py_str v = (case v of None \<Rightarrow> ''None'' | Some s \<Rightarrow> s)"

text \<open>\<open>sum(...)\<close> adds from the left, starting at \<open>0\<close>.\<close>

definition py_sum :: "pyfloat list \<Rightarrow> pyfloat" where
  "py_sum xs = foldl (+) (Fin 0) xs"

definition vector_similarity :: "pyfloat list \<Rightarrow> pyfloat list \<Rightarrow> pyfloat" where
  "vector_similarity a b =
    (if a = [] \<or> b = [] \<or> length a \<noteq> length b then Fin 0
     else let sq = py_sum (map (\<lambda>(x, y). (x - y) * (x - y)) (zip a b));
              max_dist = sqrt (real (length a))
          in pymax (Fin 0) (Fin 1 - fdiv (fsqrt sq) max_dist))"

text \<open>The loop of \<open>_modifier_penalty\<close> over the five entries of \<open>mapping\<close>, in order;
  the state is the running multiplier and the dictionary of per-key penalties.\<close>

definition modifier_mapping :: "(string \<times> string) list" where
  "modifier_mapping =
    [(''marriage'', ''LA_MARRIAGE_01''), (''nyc'', ''LA_LOC_01''),
     (''career_intensity'', ''LA_CAREER_01''), (''faith'', ''LA_FAITH_01''),
     (''social_lifestyle'', ''LA_LIFESTYLE_01'')]"

definition mod_get :: "traits \<Rightarrow> string \<Rightarrow> (string \<rightharpoonup> pyval)" where
  "mod_get t mod_key = (case t_modifiers t mod_key of None \<Rightarrow> Map.empty | Some m \<Rightarrow> m)"

definition modifier_step ::
  "traits \<Rightarrow> traits \<Rightarrow> pyfloat \<Rightarrow> pyfloat \<Rightarrow> string \<times> string \<Rightarrow> pyfloat \<times> (string \<times> pyfloat) list
     \<Rightarrow> (pyfloat \<times> (string \<times> pyfloat) list) option" where
  "modifier_step u v scale cap entry acc =
    do {
      u_pref \<leftarrow> to_float (dict_get (t_life_preferences u) (snd entry)) (Fin 0.5);
      v_pref \<leftarrow> to_float (dict_get (t_life_preferences v) (snd entry)) (Fin 0.5);
      u_imp \<leftarrow> to_float (dict_get (mod_get u (fst entry)) ''importance'') (Fin 0.5);
      v_imp \<leftarrow> to_float (dict_get (mod_get v (fst entry)) ''importance'') (Fin 0.5);
      u_flex \<leftarrow> to_float (dict_get (mod_get u (fst entry)) ''flexibility'') (Fin 0.5);
      v_flex \<leftarrow> to_float (dict_get (mod_get v (fst entry)) ''flexibility'') (Fin 0.5);
      let mismatch = \<bar>u_pref - v_pref\<bar>;
          importance = fdiv (u_imp + v_imp) 2;
          flexibility = fdiv (u_flex + v_flex) 2;
          penalty = pymin cap (pymax (Fin 0) (mismatch * importance * (Fin 1 - flexibility) * scale))
      in Some (fst acc * pymax (Fin 0) (Fin 1 - penalty),
               AList.update (fst entry) (fround6 (pymax (Fin 0) (Fin 1 - penalty))) (snd acc))
    }"

fun modifier_loop ::
  "traits \<Rightarrow> traits \<Rightarrow> pyfloat \<Rightarrow> pyfloat \<Rightarrow> (string \<times> string) list
     \<Rightarrow> pyfloat \<times> (string \<times> pyfloat) list \<Rightarrow> (pyfloat \<times> (string \<times> pyfloat) list) option" where
  "modifier_loop u v scale cap [] acc = Some acc"
| "modifier_loop u v scale cap (entry # entries) acc =
    do { acc' \<leftarrow> modifier_step u v scale cap entry acc;
         modifier_loop u v scale cap entries acc' }"

definition modifier_penalty ::
  "traits \<Rightarrow> traits \<Rightarrow> (string \<rightharpoonup> pyfloat) \<Rightarrow> (pyfloat \<times> (string \<times> pyfloat) list) option" where
  "modifier_penalty u v cfg =
    (let scale = cfg_get cfg ''modifier_penalty_scale'' (Fin 0.35);
         cap = cfg_get cfg ''modifier_penalty_cap'' (Fin 0.6)
     in do { r \<leftarrow> modifier_loop u v scale cap modifier_mapping (Fin 1, []);
             Some (fround6 (pymax (Fin 0) (pymin (Fin 1) (fst r))), snd r) })"

section \<open>The compatibility scorer\<close>

text \<open>The two kids intents as \<open>compute_compatibility\<close> reads them:
  \<open>str(_life(traits, "kids_intent", "unsure"))\<close>.\<close>

definition kids_of :: "traits \<Rightarrow> string" where
  "kids_of t = py_str (life t ''kids_intent'' (Some ''unsure''))"

text \<open>The legacy path, taken when neither profile has the key \<open>dimensions\<close>.\<close>

definition big5_vec :: "traits \<Rightarrow> pyfloat list option" where
  "big5_vec t =
    do { a \<leftarrow> to_float (dict_get (t_big5 t) ''openness'') (Fin 0.5);
         b \<leftarrow> to_float (dict_get (t_big5 t) ''conscientiousness'') (Fin 0.5);
         c \<leftarrow> to_float (dict_get (t_big5 t) ''extraversion'') (Fin 0.5);
         d \<leftarrow> to_float (dict_get (t_big5 t) ''agreeableness'') (Fin 0.5);
         e \<leftarrow> to_float (dict_get (t_big5 t) ''neuroticism'') (Fin 0.5);
         Some [a, b, c, d, e] }"

definition conflict_vec :: "traits \<Rightarrow> pyfloat list option" where
  "conflict_vec t =
    do { a \<leftarrow> to_float (dict_get (t_conflict_repair t) ''repair_willingness'') (Fin 0.5);
         b \<leftarrow> to_float (dict_get (t_conflict_repair t) ''escalation'') (Fin 0.5);
         c \<leftarrow> to_float (dict_get (t_conflict_repair t) ''cooldown_need'') (Fin 0.5);
         d \<leftarrow> to_float (dict_get (t_conflict_repair t) ''grudge_tendency'') (Fin 0.5);
         Some [a, b, c, d] }"

definition legacy_result :: "traits \<Rightarrow> traits \<Rightarrow> (string \<rightharpoonup> pyfloat) \<Rightarrow> comp_result option" where
  "legacy_result u v cfg =
    do { big5_vec_u \<leftarrow> big5_vec u;
         big5_vec_v \<leftarrow> big5_vec v;
         conflict_vec_u \<leftarrow> conflict_vec u;
         conflict_vec_v \<leftarrow> conflict_vec v;
         let big5_similarity = vector_similarity big5_vec_u big5_vec_v;
             conflict_similarity = vector_similarity conflict_vec_u conflict_vec_v
         in do {
           mp \<leftarrow> modifier_penalty u v cfg;
           let modifier_multiplier = fst mp;
               base_score = cfg_get cfg ''big5_weight'' (Fin 0.7) * big5_similarity
                          + cfg_get cfg ''conflict_weight'' (Fin 0.3) * conflict_similarity;
               clamped = pymax (Fin 0) (pymin (Fin 1) (base_score * modifier_multiplier))
           in Some \<lparr> score_total = fround6 clamped, kids_hard_check = True, gates = [],
                categories = [], components = [], penalties = [],
                extras = [(''big5_similarity'', fround6 big5_similarity),
                          (''conflict_similarity'', fround6 conflict_similarity),
                          (''modifier_multiplier'', fround6 modifier_multiplier),
                          (''base_score'', fround6 base_score)] \<rparr> } }"

text \<open>The component scores of the current path, one definition per kind of local variable.\<close>

definition sim_of :: "string \<Rightarrow> traits \<Rightarrow> traits \<Rightarrow> pyfloat option" where
  "sim_of key u v = do { a \<leftarrow> dim u key; b \<leftarrow> dim v key; Some (sim a b) }"

text \<open>\<open>(_comp(_dim(u, k1), _dim(v, k2)) + _comp(_dim(v, k1), _dim(u, k2))) / 2.0\<close>, the shape of
  \<open>reassurance_vs_independence\<close> and of \<open>approach_withdrawal\<close>.\<close>

definition cross_comp :: "string \<Rightarrow> string \<Rightarrow> traits \<Rightarrow> traits \<Rightarrow> pyfloat option" where
  "cross_comp k1 k2 u v =
    do { a \<leftarrow> dim u k1; b \<leftarrow> dim v k2; c \<leftarrow> dim v k1; d \<leftarrow> dim u k2;
         Some (fdiv (comp a b (Fin 1) (Fin 0.75) + comp c d (Fin 1) (Fin 0.75)) 2) }"

text \<open>\<open>_comp(_dim(u, k), _dim(v, k))\<close>, the shape of \<open>extraversion_comp\<close> and of
  \<open>conscientiousness_comp\<close>.\<close>

definition comp_of :: "string \<Rightarrow> traits \<Rightarrow> traits \<Rightarrow> pyfloat option" where
  "comp_of key u v = do { a \<leftarrow> dim u key; b \<leftarrow> dim v key; Some (comp a b (Fin 1) (Fin 0.75)) }"

definition escalation_risk :: "pyfloat \<Rightarrow> pyfloat \<Rightarrow> pyfloat" where
  "escalation_risk escalation_u escalation_v = Fin 1 - pymax escalation_u escalation_v"

definition kids_timeline_score :: "traits \<Rightarrow> traits \<Rightarrow> pyfloat option" where
  "kids_timeline_score u v =
    (if kids_of u \<in> {''yes'', ''probably''} \<and> kids_of v \<in> {''yes'', ''probably''}
     then sim_of ''kids_timeline_value'' u v else Some (Fin 0.5))"

text \<open>The four penalty statements, in source order. Each takes and returns the pair of the
  running total and the list \<open>penalties_applied\<close>.\<close>

definition pen_escalation ::
  "pyfloat \<Rightarrow> pyfloat \<Rightarrow> (string \<rightharpoonup> pyfloat) \<Rightarrow> pyfloat \<times> (string \<times> pyfloat) list
     \<Rightarrow> pyfloat \<times> (string \<times> pyfloat) list" where
  "pen_escalation escalation_u escalation_v cfg st =
    (if escalation_u > cfg_get cfg ''ESCALATION_PENALTY_THRESHOLD'' (Fin 0.7)
        \<and> escalation_v > cfg_get cfg ''ESCALATION_PENALTY_THRESHOLD'' (Fin 0.7)
     then (fst st * cfg_get cfg ''ESCALATION_PENALTY_MULTIPLIER'' (Fin 0.75),
           snd st @ [(''two_escalators'', cfg_get cfg ''ESCALATION_PENALTY_MULTIPLIER'' (Fin 0.75))])
     else st)"

definition pen_withdrawal ::
  "traits \<Rightarrow> traits \<Rightarrow> (string \<rightharpoonup> pyfloat) \<Rightarrow> pyfloat \<times> (string \<times> pyfloat) list
     \<Rightarrow> (pyfloat \<times> (string \<times> pyfloat) list) option" where
  "pen_withdrawal u v cfg st =
    do { withdrawal_u \<leftarrow> dim u ''withdrawal'';
         withdrawal_v \<leftarrow> dim v ''withdrawal'';
         Some (if withdrawal_u > cfg_get cfg ''WITHDRAWAL_PENALTY_THRESHOLD'' (Fin 0.7)
                  \<and> withdrawal_v > cfg_get cfg ''WITHDRAWAL_PENALTY_THRESHOLD'' (Fin 0.7)
               then (fst st * cfg_get cfg ''WITHDRAWAL_PENALTY_MULTIPLIER'' (Fin 0.85),
                     snd st @ [(''two_withdrawers'',
                                cfg_get cfg ''WITHDRAWAL_PENALTY_MULTIPLIER'' (Fin 0.85))])
               else st) }"

text \<open>The second operand of \<open>and\<close> is only evaluated when the first holds.\<close>

definition pen_mismatch ::
  "string \<Rightarrow> traits \<Rightarrow> traits \<Rightarrow> (string \<rightharpoonup> pyfloat) \<Rightarrow> pyfloat \<times> (string \<times> pyfloat) list
     \<Rightarrow> (pyfloat \<times> (string \<times> pyfloat) list) option" where
  "pen_mismatch label a b cfg st =
    do { r \<leftarrow> dim a ''reassurance_need'';
         if r > Fin 0.8 then
           do { i \<leftarrow> dim b ''independence_need'';
                Some (if i > Fin 0.8
                      then (fst st * cfg_get cfg ''MISMATCH_PENALTY_MULTIPLIER'' (Fin 0.8),
                            snd st @ [(label, cfg_get cfg ''MISMATCH_PENALTY_MULTIPLIER'' (Fin 0.8))])
                      else st) }
         else Some st }"

definition apply_penalties ::
  "traits \<Rightarrow> traits \<Rightarrow> (string \<rightharpoonup> pyfloat) \<Rightarrow> pyfloat \<Rightarrow> pyfloat \<Rightarrow> pyfloat
     \<Rightarrow> (pyfloat \<times> (string \<times> pyfloat) list) option" where
  "apply_penalties u v cfg escalation_u escalation_v total0 =
    do { st \<leftarrow> pen_withdrawal u v cfg (pen_escalation escalation_u escalation_v cfg (total0, []));
         st \<leftarrow> pen_mismatch ''reassurance_independence_u_to_v'' u v cfg st;
         pen_mismatch ''reassurance_independence_v_to_u'' v u cfg st }"

definition gate_result :: "bool \<Rightarrow> string \<Rightarrow> comp_result" where
  "gate_result kids_ok gate =
    \<lparr> score_total = Fin 0, kids_hard_check = kids_ok, gates = [gate],
      categories = [], components = [], penalties = [], extras = [] \<rparr>"

text \<open>The component scores, in the order the source computes them.\<close>

record component_scores =
  values_similarity :: pyfloat
  emo_similarity :: pyfloat
  reassurance_vs_independence :: pyfloat
  text_similarity :: pyfloat
  drama_similarity :: pyfloat
  testing_similarity :: pyfloat
  approach_withdrawal :: pyfloat
  escalation_risk_score :: pyfloat
  repair_similarity :: pyfloat
  structure_similarity :: pyfloat
  extraversion_comp :: pyfloat
  conscientiousness_comp :: pyfloat
  relocation_similarity :: pyfloat
  career_similarity :: pyfloat
  intentions_similarity :: pyfloat
  kids_timeline :: pyfloat

definition component_scores_of ::
  "traits \<Rightarrow> traits \<Rightarrow> pyfloat \<Rightarrow> pyfloat \<Rightarrow> component_scores option" where
  "component_scores_of u v escalation_u escalation_v =
    do { c1 \<leftarrow> sim_of ''worldview_alignment'' u v;
         c2 \<leftarrow> sim_of ''stability'' u v;
         c3 \<leftarrow> cross_comp ''reassurance_need'' ''independence_need'' u v;
         c4 \<leftarrow> sim_of ''text_sensitivity'' u v;
         c5 \<leftarrow> sim_of ''drama_avoidance'' u v;
         c6 \<leftarrow> sim_of ''testing_behavior'' u v;
         c7 \<leftarrow> cross_comp ''approach'' ''withdrawal'' u v;
         c9 \<leftarrow> sim_of ''repair_belief'' u v;
         c10 \<leftarrow> sim_of ''structure'' u v;
         c11 \<leftarrow> comp_of ''extraversion'' u v;
         c12 \<leftarrow> comp_of ''conscientiousness'' u v;
         c13 \<leftarrow> sim_of ''relocation_openness'' u v;
         c14 \<leftarrow> sim_of ''career_intensity'' u v;
         c15 \<leftarrow> sim_of ''define_intentions_early'' u v;
         c16 \<leftarrow> kids_timeline_score u v;
         Some \<lparr> values_similarity = c1, emo_similarity = c2, reassurance_vs_independence = c3,
                text_similarity = c4, drama_similarity = c5, testing_similarity = c6,
                approach_withdrawal = c7,
                escalation_risk_score = escalation_risk escalation_u escalation_v,
                repair_similarity = c9, structure_similarity = c10, extraversion_comp = c11,
                conscientiousness_comp = c12, relocation_similarity = c13,
                career_similarity = c14, intentions_similarity = c15, kids_timeline = c16 \<rparr> }"

text \<open>The weighted blend, before the penalties.\<close>

definition blend_total :: "component_scores \<Rightarrow> pyfloat" where
  "blend_total c =
      Fin 0.22 * values_similarity c
    + Fin 0.12 * emo_similarity c
    + Fin 0.10 * reassurance_vs_independence c
    + Fin 0.06 * text_similarity c
    + Fin 0.03 * drama_similarity c
    + Fin 0.03 * testing_similarity c
    + Fin 0.08 * approach_withdrawal c
    + Fin 0.08 * escalation_risk_score c
    + Fin 0.04 * repair_similarity c
    + Fin 0.04 * structure_similarity c
    + Fin 0.06 * extraversion_comp c
    + Fin 0.06 * conscientiousness_comp c
    + Fin 0.03 * relocation_similarity c
    + Fin 0.03 * career_similarity c
    + Fin 0.02 * intentions_similarity c"

definition category_scores :: "component_scores \<Rightarrow> (string \<times> pyfloat) list" where
  "category_scores c =
    [(''values_similarity'', fround6 (values_similarity c)),
     (''attachment_fit'', fround6 (fdiv (Fin 0.10 * reassurance_vs_independence c
         + Fin 0.06 * text_similarity c + Fin 0.03 * drama_similarity c
         + Fin 0.03 * testing_similarity c) 0.22)),
     (''conflict_fit'', fround6 (fdiv (Fin 0.08 * approach_withdrawal c
         + Fin 0.08 * escalation_risk_score c + Fin 0.04 * repair_similarity c
         + Fin 0.04 * structure_similarity c) 0.24)),
     (''personality_fit'', fround6 (fdiv (Fin 0.06 * extraversion_comp c
         + Fin 0.06 * conscientiousness_comp c) 0.12)),
     (''life_fit'', fround6 (fdiv (Fin 0.03 * relocation_similarity c
         + Fin 0.03 * career_similarity c + Fin 0.02 * intentions_similarity c) 0.08)),
     (''emotional_similarity'', fround6 (emo_similarity c)),
     (''kids_timeline_similarity'', fround6 (kids_timeline c))]"

definition component_list :: "component_scores \<Rightarrow> (string \<times> pyfloat) list" where
  "component_list c =
    [(''values_similarity'', fround6 (values_similarity c)),
     (''reassurance_vs_independence'', fround6 (reassurance_vs_independence c)),
     (''text_sensitivity_similarity'', fround6 (text_similarity c)),
     (''drama_avoidance_similarity'', fround6 (drama_similarity c)),
     (''testing_behavior_similarity'', fround6 (testing_similarity c)),
     (''approach_withdrawal_complement'', fround6 (approach_withdrawal c)),
     (''escalation_risk'', fround6 (escalation_risk_score c)),
     (''repair_similarity'', fround6 (repair_similarity c)),
     (''structure_similarity'', fround6 (structure_similarity c)),
     (''extraversion_complement'', fround6 (extraversion_comp c)),
     (''conscientiousness_complement'', fround6 (conscientiousness_comp c)),
     (''relocation_similarity'', fround6 (relocation_similarity c)),
     (''career_similarity'', fround6 (career_similarity c)),
     (''intentions_similarity'', fround6 (intentions_similarity c))]"

definition current_result ::
  "traits \<Rightarrow> traits \<Rightarrow> (string \<rightharpoonup> pyfloat) \<Rightarrow> pyfloat \<Rightarrow> pyfloat \<Rightarrow> comp_result option" where
  "current_result u v cfg escalation_u escalation_v =
    do { c \<leftarrow> component_scores_of u v escalation_u escalation_v;
         st \<leftarrow> apply_penalties u v cfg escalation_u escalation_v (blend_total c);
         let clamped = pymax (Fin 0) (pymin (Fin 1) (fst st))
         in Some \<lparr> score_total = fround6 clamped, kids_hard_check = True, gates = [],
              categories = category_scores c, components = component_list c,
              penalties = snd st, extras = [(''base_score'', fround6 clamped)] \<rparr> }"

definition compute_compatibility ::
  "traits \<Rightarrow> traits \<Rightarrow> (string \<rightharpoonup> pyfloat) \<Rightarrow> comp_result option" where
  "compute_compatibility u v cfg =
    (if kids_hard_mismatch (Some (kids_of u)) (Some (kids_of v)) then
       Some (gate_result False ''kids_hard_conflict'')
     else
       do { escalation_u \<leftarrow> dim u ''escalation'';
            escalation_v \<leftarrow> dim v ''escalation'';
            if escalation_u > cfg_get cfg ''ESCALATION_GATE'' (Fin 0.95)
               \<and> escalation_v > cfg_get cfg ''ESCALATION_GATE'' (Fin 0.95)
            then Some (gate_result True ''safety_escalation_gate'')
            else if t_dimensions u = None \<and> t_dimensions v = None
            then legacy_result u v cfg
            else current_result u v cfg escalation_u escalation_v })"



text \<open>Profiles used to instantiate the theorems below: \<open>{"dimensions": {"escalation":
  "nan"}}\<close>, \<open>{"dimensions": {}}\<close>, \<open>{"dimensions": {"stability": 10**400}}\<close>,
  \<open>{"dimensions": [1]}\<close>, \<open>{"dimensions": {"stability": "n/a"}}\<close>,
  \<open>{"life": {"kids_intent": "no"}}\<close> and \<open>{"life": {"kids_intent": None}}\<close>.\<close>

definition nan_escalation :: traits where
  "nan_escalation = empty_traits\<lparr>t_dimensions := Some (Dims [''escalation'' \<mapsto> PNum NaN])\<rparr>"

definition no_dimensions_set :: traits where
  "no_dimensions_set = empty_traits\<lparr>t_dimensions := Some (Dims Map.empty)\<rparr>"

definition huge_stability :: traits where
  "huge_stability = empty_traits\<lparr>t_dimensions := Some (Dims [''stability'' \<mapsto> PHuge])\<rparr>"



definition no_kids :: traits where
  "no_kids = empty_traits\<lparr>t_life := [''kids_intent'' \<mapsto> Some ''no'']\<rparr>"


section \<open>Candidate pairs (services/matching.py)\<close>

text \<open>
  Strings are lists of ASCII characters. \<open>str.strip()\<close> removes the ASCII whitespace
  characters at both ends, \<open>str.lower()\<close> maps \<open>A-Z\<close> to \<open>a-z\<close>; characters outside ASCII are
  outside the model. \<open>sorted\<close> on two strings is the lexicographic order on characters.
  A user's \<open>gender_identity\<close> is \<open>None\<close> or a string; \<open>seeking_genders\<close> is \<open>None\<close> when the
  stored value is not a list, and its items are \<open>None\<close> or strings.
\<close>

definition canonical_pair :: "string \<Rightarrow> string \<Rightarrow> string \<times> string" where
  "canonical_pair user_a user_b = (min user_a user_b, max user_a user_b)"

definition py_isspace :: "char \<Rightarrow> bool" where
  "py_isspace c = (c \<in> set [CHR 0x09, CHR 0x0A, CHR 0x0B, CHR 0x0C, CHR 0x0D,
                             CHR 0x1C, CHR 0x1D, CHR 0x1E, CHR 0x1F, CHR '' ''])"

definition py_strip :: "string \<Rightarrow> string" where
  "py_strip s = rev (dropWhile py_isspace (rev (dropWhile py_isspace s)))"

definition py_lower_char :: "char \<Rightarrow> char" where
  "py_lower_char c =
    (case map_of (zip ''ABCDEFGHIJKLMNOPQRSTUVWXYZ'' ''abcdefghijklmnopqrstuvwxyz'') c of
       Some l \<Rightarrow> l | None \<Rightarrow> c)"

definition py_lower :: "string \<Rightarrow> string" where
  "py_lower s = map py_lower_char s"

definition normalize_gender :: "string option \<Rightarrow> string option" where
  "normalize_gender v =
    (case v of None \<Rightarrow> None
     | Some s \<Rightarrow> (let g = py_lower (py_strip s) in if g = [] then None else Some g))"

definition parse_seeking :: "string option list option \<Rightarrow> string set" where
  "parse_seeking vs =
    (case vs of None \<Rightarrow> {}
     | Some items \<Rightarrow> set (List.map_filter normalize_gender items))"

record user =
  user_id :: string
  u_traits :: traits
  gender_identity :: "string option"
  seeking_genders :: "string option list option"

definition gender_preference_compatible :: "user \<Rightarrow> user \<Rightarrow> bool" where
  "gender_preference_compatible u v =
    (let u_gender = normalize_gender (gender_identity u);
         v_gender = normalize_gender (gender_identity v);
         u_seeking = parse_seeking (seeking_genders u);
         v_seeking = parse_seeking (seeking_genders v)
     in if u_gender = None \<or> v_gender = None \<or> u_seeking = {} \<or> v_seeking = {} then False
        else the v_gender \<in> u_seeking \<and> the u_gender \<in> v_seeking)"

record match_candidate =
  mc_user_id :: string
  mc_matched_user_id :: string
  mc_score_total :: pyfloat
  mc_score_breakdown :: comp_result

text \<open>The two nested loops. An exception raised by \<open>compute_compatibility\<close> leaves
  \<open>build_candidate_pairs\<close>, which then returns nothing (\<open>None\<close>).\<close>

fun candidates_for ::
  "(string \<rightharpoonup> pyfloat) \<Rightarrow> (string \<times> string) set \<Rightarrow> (string \<times> string) set \<Rightarrow> user \<Rightarrow> user list
     \<Rightarrow> match_candidate list option" where
  "candidates_for cfg recent_pairs blocked_pairs u [] = Some []"
| "candidates_for cfg recent_pairs blocked_pairs u (v # vs) =
    (let pair_key = canonical_pair (user_id u) (user_id v)
     in if pair_key \<in> recent_pairs then candidates_for cfg recent_pairs blocked_pairs u vs
        else if pair_key \<in> blocked_pairs then candidates_for cfg recent_pairs blocked_pairs u vs
        else if \<not> gender_preference_compatible u v
        then candidates_for cfg recent_pairs blocked_pairs u vs
        else do { c \<leftarrow> compute_compatibility (u_traits u) (u_traits v) cfg;
                  rest \<leftarrow> candidates_for cfg recent_pairs blocked_pairs u vs;
                  Some (\<lparr> mc_user_id = user_id u, mc_matched_user_id = user_id v,
                          mc_score_total = score_total c, mc_score_breakdown = c \<rparr> # rest) })"

fun build_candidate_pairs ::
  "user list \<Rightarrow> (string \<rightharpoonup> pyfloat) \<Rightarrow> (string \<times> string) set \<Rightarrow> (string \<times> string) set
     \<Rightarrow> match_candidate list option" where
  "build_candidate_pairs [] cfg recent_pairs blocked_pairs = Some []"
| "build_candidate_pairs (u # us) cfg recent_pairs blocked_pairs =
    do { first \<leftarrow> candidates_for cfg recent_pairs blocked_pairs u us;
         rest \<leftarrow> build_candidate_pairs us cfg recent_pairs blocked_pairs;
         Some (first @ rest) }"

text \<open>Mutual gender-preference compatibility in the words of the specification: both
  identities and both seeking sets are set and non-empty, and each identity is in the
  other's seeking set.\<close>

definition mutually_seeking :: "user \<Rightarrow> user \<Rightarrow> bool" where
  "mutually_seeking u v =
    (\<exists>gu gv. normalize_gender (gender_identity u) = Some gu
           \<and> normalize_gender (gender_identity v) = Some gv
           \<and> gu \<noteq> [] \<and> gv \<noteq> []
           \<and> parse_seeking (seeking_genders u) \<noteq> {}
           \<and> parse_seeking (seeking_genders v) \<noteq> {}
           \<and> gv \<in> parse_seeking (seeking_genders u)
           \<and> gu \<in> parse_seeking (seeking_genders v))"

text \<open>A small pool used to instantiate the theorems below.\<close>

definition man_a :: user where
  "man_a = \<lparr> user_id = ''a'', u_traits = empty_traits, gender_identity = Some '' Man '',
     seeking_genders = Some [Some ''Woman''] \<rparr>"
definition woman_b :: user where
  "woman_b = \<lparr> user_id = ''b'', u_traits = empty_traits, gender_identity = Some ''woman'',
     seeking_genders = Some [Some ''man'', None] \<rparr>"
definition woman_c :: user where
  "woman_c = \<lparr> user_id = ''c'', u_traits = empty_traits, gender_identity = Some ''woman'',
     seeking_genders = Some [Some ''man''] \<rparr>"
definition cand_ab :: match_candidate where
  "cand_ab = \<lparr> mc_user_id = ''a'', mc_matched_user_id = ''b'',
      mc_score_total = score_total (the (compute_compatibility empty_traits empty_traits Map.empty)),
      mc_score_breakdown = the (compute_compatibility empty_traits empty_traits Map.empty) \<rparr>"

section \<open>Stable matching on a bipartite pool (services/matching.py)\<close>

text \<open>
  Preference lists are a dictionary from user id to a list of user ids;
  \<open>prefs.get(u, [])\<close> is \<open>prefs_get\<close>. \<open>women_rank[w]\<close> is built by a dictionary
  comprehension over \<open>enumerate(prefs.get(w, []))\<close>, so a repeated id keeps its last index;
  \<open>rank_map.get(m, 10**9)\<close> is \<open>rank_get\<close>. The dictionaries \<open>next_idx\<close> and \<open>engaged_to\<close>
  are association lists in insertion order; \<open>free\<close> is the list used as a queue.
\<close>

definition prefs_get :: "(string \<rightharpoonup> string list) \<Rightarrow> string \<Rightarrow> string list" where
  "prefs_get prefs u = (case prefs u of None \<Rightarrow> [] | Some l \<Rightarrow> l)"

definition rank_map_of :: "string list \<Rightarrow> (string \<rightharpoonup> nat)" where
  "rank_map_of l = fold (\<lambda>(i, m) acc. acc(m \<mapsto> i)) (enumerate 0 l) Map.empty"

definition women_rank ::
  "(string \<rightharpoonup> string list) \<Rightarrow> string list \<Rightarrow> string \<Rightarrow> (string \<rightharpoonup> nat) option" where
  "women_rank prefs women w =
    (if w \<in> set women then Some (rank_map_of (prefs_get prefs w)) else None)"

definition rank_get :: "(string \<rightharpoonup> nat) \<Rightarrow> string \<Rightarrow> nat" where
  "rank_get rm m = (case rm m of None \<Rightarrow> 10 ^ 9 | Some i \<Rightarrow> i)"

text \<open>The number of proposals still possible: the measure under which the loop ends.\<close>

definition remaining :: "(string \<rightharpoonup> string list) \<Rightarrow> (string \<times> nat) list \<Rightarrow> nat" where
  "remaining prefs next_idx = (\<Sum>(k, i)\<leftarrow>next_idx. length (prefs_get prefs k) - i)"

text \<open>The \<open>while free\<close> loop of \<open>_stable_bipartite_match\<close>. \<open>None\<close> is the \<open>KeyError\<close> of
  \<open>next_idx[m]\<close>.\<close>

function gs_loop ::
  "(string \<rightharpoonup> string list) \<Rightarrow> string list \<Rightarrow> (string \<times> nat) list \<Rightarrow> (string \<times> string) list
     \<Rightarrow> string list \<Rightarrow> (string \<times> string) list option" where
  "gs_loop prefs women next_idx engaged_to [] = Some engaged_to"
| "gs_loop prefs women next_idx engaged_to (m # free) =
    (case map_of next_idx m of
       None \<Rightarrow> None
     | Some i \<Rightarrow>
        let p = prefs_get prefs m in
        if i \<ge> length p then gs_loop prefs women next_idx engaged_to free
        else
          let w = p ! i; next_idx' = AList.update m (Suc i) next_idx in
          (case women_rank prefs women w of
             None \<Rightarrow> gs_loop prefs women next_idx' engaged_to (free @ [m])
           | Some rank_map \<Rightarrow>
              (case map_of engaged_to w of
                 None \<Rightarrow> gs_loop prefs women next_idx' (AList.update w m engaged_to) free
               | Some current \<Rightarrow>
                  if rank_get rank_map m < rank_get rank_map current
                  then gs_loop prefs women next_idx' (AList.update w m engaged_to) (free @ [current])
                  else gs_loop prefs women next_idx' engaged_to (free @ [m]))))"
  by pat_completeness auto
termination
proof -
  have upd: "remaining prefs (AList.update m (Suc i) al) < remaining prefs al"
    if "map_of al m = Some i" "i < length (prefs_get prefs m)" for prefs m i al
    using that
  proof (induction al)
    case Nil then show ?case by simp
  next
    case (Cons a al)
    then show ?case
      by (cases a) (auto simp: remaining_def split: if_splits)
  qed
  show ?thesis
    by (relation "measure (\<lambda>(prefs, women, next_idx, engaged_to, free).
          remaining prefs next_idx + length free)")
       (auto simp: not_le intro: upd less_SucI)
qed

definition men_of :: "user list \<Rightarrow> string list" where
  "men_of users =
    map user_id (filter (\<lambda>u. normalize_gender (gender_identity u) = Some ''man'') users)"

definition women_of :: "user list \<Rightarrow> string list" where
  "women_of users =
    map user_id (filter (\<lambda>u. normalize_gender (gender_identity u) = Some ''woman'') users)"

text \<open>\<open>_stable_bipartite_match\<close>: men propose; the result lists \<open>(m, w)\<close> for every entry
  \<open>w: m\<close> of \<open>engaged_to\<close>.\<close>

definition stable_bipartite_match ::
  "user list \<Rightarrow> (string \<rightharpoonup> string list) \<Rightarrow> (string \<times> string) list option" where
  "stable_bipartite_match users prefs =
    (let men = men_of users; women = women_of users
     in map_option (map (\<lambda>(w, m). (m, w)))
          (gs_loop prefs women (map (\<lambda>m. (m, 0)) men) [] men))"

text \<open>
  The vocabulary of the stability claim. \<open>prefers l x y\<close>: on the preference list \<open>l\<close>, \<open>x\<close>
  comes strictly before \<open>y\<close> (an id that is not on the list comes after every id that is).
  \<open>partners out x\<close>: the users paired with \<open>x\<close> in the matching \<open>out\<close>. \<open>blocking_pair\<close>:
  \<open>x\<close> and \<open>y\<close> are both matched, to other partners, and each strictly prefers the other to
  a partner of their own. \<open>two_sided\<close>: no man lists a man and no woman lists a woman.
\<close>

definition prefers :: "string list \<Rightarrow> string \<Rightarrow> string \<Rightarrow> bool" where
  "prefers l x y = (x \<noteq> y \<and> x \<in> set (takeWhile (\<lambda>z. z \<noteq> y) l))"

definition partners :: "(string \<times> string) list \<Rightarrow> string \<Rightarrow> string list" where
  "partners out x = map snd (filter (\<lambda>p. fst p = x) out) @ map fst (filter (\<lambda>p. snd p = x) out)"

definition blocking_pair ::
  "(string \<rightharpoonup> string list) \<Rightarrow> (string \<times> string) list \<Rightarrow> string \<Rightarrow> string \<Rightarrow> bool" where
  "blocking_pair prefs out x y =
    (\<exists>px \<in> set (partners out x). \<exists>py \<in> set (partners out y).
       prefers (prefs_get prefs x) y px \<and> prefers (prefs_get prefs y) x py)"

definition two_sided :: "user list \<Rightarrow> (string \<rightharpoonup> string list) \<Rightarrow> bool" where
  "two_sided users prefs =
    ((\<forall>m \<in> set (men_of users). set (prefs_get prefs m) \<inter> set (men_of users) = {})
     \<and> (\<forall>w \<in> set (women_of users). set (prefs_get prefs w) \<inter> set (women_of users) = {}))"

text \<open>The state of the loop used in the proofs: \<open>proposed\<close>, the proposals made so far (the
  entries of a man's list below his \<open>next_idx\<close>); \<open>rk\<close>, the rank a woman gives a man;
  \<open>gs_inv\<close>, every woman of the pool who has been proposed to is engaged to a man she ranks
  at least as well as each proposer, and every engagement comes from a proposal; \<open>gs_keys\<close>,
  every free or engaged man has an entry in \<open>next_idx\<close>.\<close>

definition proposed :: "(string \<rightharpoonup> string list) \<Rightarrow> (string \<times> nat) list \<Rightarrow> string \<Rightarrow> string \<Rightarrow> bool" where
  "proposed prefs next_idx m w =
    (\<exists>i k. map_of next_idx m = Some k \<and> i < k \<and> i < length (prefs_get prefs m)
          \<and> prefs_get prefs m ! i = w)"

definition rk :: "(string \<rightharpoonup> string list) \<Rightarrow> string \<Rightarrow> string \<Rightarrow> nat" where
  "rk prefs w x = rank_get (rank_map_of (prefs_get prefs w)) x"

definition gs_inv ::
  "(string \<rightharpoonup> string list) \<Rightarrow> string list \<Rightarrow> (string \<times> nat) list \<Rightarrow> (string \<times> string) list \<Rightarrow> bool" where
  "gs_inv prefs women next_idx engaged_to =
    ((\<forall>m w. proposed prefs next_idx m w \<and> w \<in> set women \<longrightarrow>
        (\<exists>m'. map_of engaged_to w = Some m' \<and> \<not> rk prefs w m < rk prefs w m'))
     \<and> (\<forall>w m. map_of engaged_to w = Some m \<longrightarrow> proposed prefs next_idx m w \<and> w \<in> set women))"

definition gs_keys :: "(string \<times> nat) list \<Rightarrow> (string \<times> string) list \<Rightarrow> string list \<Rightarrow> bool" where
  "gs_keys next_idx engaged_to free =
    (set free \<subseteq> dom (map_of next_idx) \<and> ran (map_of engaged_to) \<subseteq> dom (map_of next_idx)
     \<and> distinct (map fst engaged_to))"

text \<open>A pool of two men and two women and their preference lists, used to instantiate the
  theorem.\<close>

definition man_d :: user where
  "man_d = \<lparr> user_id = ''d'', u_traits = empty_traits, gender_identity = Some ''man'',
     seeking_genders = Some [Some ''woman''] \<rparr>"

definition example_prefs :: "string \<rightharpoonup> string list" where
  "example_prefs = [''a'' \<mapsto> [''b'', ''c''], ''d'' \<mapsto> [''b''], ''b'' \<mapsto> [''d'', ''a''], ''c'' \<mapsto> [''a'']]"

section \<open>Trait computation (traits.py)\<close>

text \<open>
  An answer value is modelled by what the missing-answer check does with its scalar:
  \<open>SNone\<close> is \<open>None\<close>, \<open>SStr s\<close> a string, \<open>SOther\<close> any other hashable value (a number, a
  bool), \<open>SUnhashable\<close> a list or a dictionary, on which the test \<open>not in {"yes",
  "probably"}\<close> raises \<open>TypeError\<close>. \<open>Wrapped s\<close> is a dictionary with the key \<open>value\<close>
  holding \<open>s\<close>; a dictionary without that key is its own scalar, \<open>Plain SUnhashable\<close>.
\<close>

datatype scalar = SNone | SStr string | SOther | SUnhashable

datatype answer = Plain scalar | Wrapped scalar


text \<open>The fields of a question that the check reads; \<open>is_required\<close> and \<open>allow_skip\<close> are
  the truth values of the stored entries. An item without a question has no code.\<close>

record question =
  q_code :: "string option"
  q_is_required :: bool
  q_allow_skip :: bool

text \<open>\<open>int(version or 0)\<close> returns an integer or raises.\<close>

datatype version_value = VersionInt int | VersionBad

record survey_def =
  sd_slug :: "string option"
  sd_version :: version_value
  sd_screens :: "question list list"

text \<open>
  The exceptions: \<open>MissingAnswers codes\<close> is \<open>ValueError("missing required answers: " +
  ", ".join(codes))\<close>, \<open>NotHashable\<close> the \<open>TypeError\<close> of the membership test,
  \<open>BadVersion\<close> an exception of \<open>int()\<close>. A call that raises none of them reaches the
  body of one of the two builders, which computes the fields of the profile and is not
  modelled further.
\<close>

datatype trait_error = MissingAnswers "string list" | NotHashable | BadVersion

datatype builder = CoreV3 | LegacyV1





definition compute_traits_legacy_v1 ::
  "survey_def \<Rightarrow> (string \<rightharpoonup> answer) \<Rightarrow> trait_error + builder" where
  "compute_traits_legacy_v1 sd answers = Inr LegacyV1"






section \<open>Survey reconciliation (services/survey_reconciliation.py)\<close>





















section \<open>Question fingerprints (services/survey_fingerprint.py)\<close>

text \<open>
  The fields of a question that \<open>question_semantics_hash\<close> puts into its payload. Values
  that are only hashed are of an arbitrary type \<open>'j\<close> (JSON); \<open>rules\<close> is the value of
  \<open>question.get("rules") or []\<close>. The hash function itself, \<open>sha256_hex\<close> of the canonical
  JSON text of the payload, is the argument \<open>sha\<close>.
\<close>

record 'j question_fields =
  qf_text :: 'j
  qf_response_type :: 'j
  qf_is_required :: bool
  qf_allow_skip :: bool
  qf_rules :: 'j
  qf_usage :: 'j
  qf_reverse_coded :: bool
  qf_region_tag :: 'j

text \<open>An item's \<open>options\<close> are the name of an option set or are given in place (\<open>None\<close>
  when absent).\<close>

datatype 'j item_options = OptionSetRef string | InlineOptions "'j option"

record 'j survey_item =
  it_code :: "string option"
  it_question :: "'j question_fields"
  it_options :: "'j item_options"

record 'j survey_screen =
  sc_key :: "string option"
  sc_items :: "'j survey_item list"

record 'j survey =
  sv_option_sets :: "string \<rightharpoonup> 'j"
  sv_screens :: "'j survey_screen list"






















section \<open>Assignment state machine (services/state_machine.py)\<close>

text \<open>
  Statuses and actions are Python strings; the two datetimes are compared with \<open>>=\<close>
  only, so they are modelled as integers (seconds on a common clock).
\<close>

definition transition_status :: "string \<Rightarrow> string \<Rightarrow> int \<Rightarrow> int \<Rightarrow> string" where
  "transition_status current action now expires_at =
    (if current = ''no_match'' then ''no_match''
     else if (current = ''proposed'' \<or> current = ''revealed'') \<and> now \<ge> expires_at then ''expired''
     else if action = ''view'' then
       (if current = ''proposed'' then ''revealed'' else current)
     else if action = ''accept'' then
       (if current = ''revealed'' then ''accepted''
        else if current = ''accepted'' then ''accepted'' else current)
     else if action = ''decline'' then
       (if current = ''revealed'' then ''declined''
        else if current = ''declined'' then ''declined'' else current)
     else if action = ''expire'' then
       (if current = ''proposed'' \<or> current = ''revealed'' then ''expired'' else current)
     else current)"

section \<open>Properties of the scorer\<close>

subsection \<open>Symmetry of the parts\<close>

























subsection \<open>Evaluation on the example profiles\<close>



lemma round6_one: "round6 1 = 1"
  by (simp add: round6_def round_half_even_def)




lemma dim_empty_traits: "dim empty_traits k = Some (Fin (1/2))"
  by (simp add: dim_def empty_traits_def dict_get_def to_float_def)

lemma kids_of_examples:
  "kids_of nan_escalation = ''unsure''" "kids_of no_dimensions_set = ''unsure''"
  "kids_of empty_traits = ''unsure''" "kids_of huge_stability = ''unsure''"
  by (simp_all add: kids_of_def life_def py_str_def nan_escalation_def no_dimensions_set_def
      empty_traits_def huge_stability_def)

lemma not_hard_unsure: "\<not> kids_hard_mismatch (Some ''unsure'') k"
  "\<not> kids_hard_mismatch k (Some ''unsure'')"
  by (simp_all add: kids_hard_mismatch_def)




lemma vector_similarity_same:
  "vector_similarity [Fin (1/2), Fin (1/2), Fin (1/2), Fin (1/2), Fin (1/2)]
     [Fin (1/2), Fin (1/2), Fin (1/2), Fin (1/2), Fin (1/2)] = Fin 1"
  "vector_similarity [Fin (1/2), Fin (1/2), Fin (1/2), Fin (1/2)]
     [Fin (1/2), Fin (1/2), Fin (1/2), Fin (1/2)] = Fin 1"
  by (simp_all add: vector_similarity_def py_sum_def minus_pyfloat_def pymax_def)

lemma vecs_empty_traits:
  "big5_vec empty_traits = Some [Fin (1/2), Fin (1/2), Fin (1/2), Fin (1/2), Fin (1/2)]"
  "conflict_vec empty_traits = Some [Fin (1/2), Fin (1/2), Fin (1/2), Fin (1/2)]"
  by (simp_all add: big5_vec_def conflict_vec_def empty_traits_def dict_get_def to_float_def)

lemma modifier_step_empty_traits:
  "modifier_step empty_traits empty_traits (Fin (7/20)) (Fin (3/5)) e (Fin 1, ps)
   = Some (Fin 1, AList.update (fst e) (Fin 1) ps)"
  by (simp add: modifier_step_def empty_traits_def mod_get_def dict_get_def to_float_def
      minus_pyfloat_def pymax_def pymin_def round6_one)

lemma modifier_penalty_empty_traits:
  "map_option fst (modifier_penalty empty_traits empty_traits Map.empty) = Some (Fin 1)"
  by (simp add: modifier_penalty_def cfg_get_def modifier_mapping_def modifier_step_empty_traits
      pymax_def pymin_def round6_one)

lemma legacy_empty_traits:
  "\<exists>r. legacy_result empty_traits empty_traits Map.empty = Some r
     \<and> score_total r = Fin 1 \<and> gates r = []"
proof -
  from modifier_penalty_empty_traits obtain ps where
    "modifier_penalty empty_traits empty_traits Map.empty = Some (Fin 1, ps)"
    by (cases "modifier_penalty empty_traits empty_traits Map.empty") auto
  then show ?thesis
    by (simp add: legacy_result_def vecs_empty_traits vector_similarity_same cfg_get_def
        pymax_def pymin_def round6_one Let_def)
qed

lemma compute_empty_traits:
  "\<exists>r. compute_compatibility empty_traits empty_traits Map.empty = Some r
     \<and> score_total r = Fin 1 \<and> gates r = []"
proof -
  have "t_dimensions empty_traits = None" by (simp add: empty_traits_def)
  then have "compute_compatibility empty_traits empty_traits Map.empty
      = legacy_result empty_traits empty_traits Map.empty"
    by (simp add: compute_compatibility_def kids_of_examples not_hard_unsure dim_empty_traits
        cfg_get_def)
  with legacy_empty_traits show ?thesis by simp
qed

subsection \<open>Gates and totality\<close>




























subsection \<open>The claims about the scorer\<close>

text \<open>
  C1: when the two kids intents, as the scorer reads them, are a hard conflict (one of
  \<open>yes\<close>/\<open>probably\<close> against one of \<open>no\<close>/\<open>probably_not\<close>, in either order), the scorer
  returns, and its result has \<open>score_total = 0\<close> and \<open>gates = ["kids_hard_conflict"]\<close>,
  whatever the other dimensions and the configuration are.
\<close>

theorem kids_hard_conflict_scores_zero:
  assumes "(kids_of u \<in> {''yes'', ''probably''} \<and> kids_of v \<in> {''no'', ''probably_not''})
         \<or> (kids_of v \<in> {''yes'', ''probably''} \<and> kids_of u \<in> {''no'', ''probably_not''})"
  shows "map_option score_total (compute_compatibility u v cfg) = Some (Fin 0)
       \<and> map_option gates (compute_compatibility u v cfg) = Some [''kids_hard_conflict'']"
proof -
  from assms have "kids_hard_mismatch (Some (kids_of u)) (Some (kids_of v))"
    by (auto simp: kids_hard_mismatch_def)
  then show ?thesis
    by (simp add: compute_compatibility_def gate_result_def)
qed

theorem kids_hard_conflict_scores_zero_witness:
  "map_option score_total (compute_compatibility
      (empty_traits\<lparr>t_life := [''kids_intent'' \<mapsto> Some ''yes'']\<rparr>)
      (empty_traits\<lparr>t_life := [''kids_intent'' \<mapsto> Some ''no'']\<rparr>) Map.empty) = Some (Fin 0)
   \<and> map_option gates (compute_compatibility
      (empty_traits\<lparr>t_life := [''kids_intent'' \<mapsto> Some ''yes'']\<rparr>)
      (empty_traits\<lparr>t_life := [''kids_intent'' \<mapsto> Some ''no'']\<rparr>) Map.empty)
     = Some [''kids_hard_conflict'']"
proof -
  have "kids_of (empty_traits\<lparr>t_life := [''kids_intent'' \<mapsto> Some ''yes'']\<rparr>) = ''yes''"
       "kids_of (empty_traits\<lparr>t_life := [''kids_intent'' \<mapsto> Some ''no'']\<rparr>) = ''no''"
    by (simp_all add: kids_of_def life_def py_str_def empty_traits_def)
  then show ?thesis
    using kids_hard_conflict_scores_zero
      [of "empty_traits\<lparr>t_life := [''kids_intent'' \<mapsto> Some ''yes'']\<rparr>"
          "empty_traits\<lparr>t_life := [''kids_intent'' \<mapsto> Some ''no'']\<rparr>" Map.empty]
    by simp
qed







section \<open>Properties of the candidate pair builder\<close>

lemma candidates_for_sound:
  "candidates_for cfg rp bp u vs = Some cs \<Longrightarrow> c \<in> set cs \<Longrightarrow>
   \<exists>j < length vs. mc_user_id c = user_id u \<and> mc_matched_user_id c = user_id (vs ! j)
      \<and> canonical_pair (user_id u) (user_id (vs ! j)) \<notin> rp
      \<and> canonical_pair (user_id u) (user_id (vs ! j)) \<notin> bp
      \<and> gender_preference_compatible u (vs ! j)
      \<and> compute_compatibility (u_traits u) (u_traits (vs ! j)) cfg = Some (mc_score_breakdown c)
      \<and> mc_score_total c = score_total (mc_score_breakdown c)"
proof (induction vs arbitrary: cs)
  case Nil then show ?case by simp
next
  case (Cons v vs)
  let ?P = "\<lambda>w. mc_user_id c = user_id u \<and> mc_matched_user_id c = user_id w
      \<and> canonical_pair (user_id u) (user_id w) \<notin> rp
      \<and> canonical_pair (user_id u) (user_id w) \<notin> bp
      \<and> gender_preference_compatible u w
      \<and> compute_compatibility (u_traits u) (u_traits w) cfg = Some (mc_score_breakdown c)
      \<and> mc_score_total c = score_total (mc_score_breakdown c)"
  have tail: "\<exists>j < length (v # vs). ?P ((v # vs) ! j)"
    if "candidates_for cfg rp bp u vs = Some cs'" "c \<in> set cs'" for cs'
  proof -
    from Cons.IH [OF that] obtain j where "j < length vs" "?P (vs ! j)" by blast
    then show ?thesis by (intro exI [of _ "Suc j"]) simp
  qed
  show ?case
  proof (cases "canonical_pair (user_id u) (user_id v) \<in> rp
      \<or> canonical_pair (user_id u) (user_id v) \<in> bp \<or> \<not> gender_preference_compatible u v")
    case True
    with Cons.prems have "candidates_for cfg rp bp u vs = Some cs"
      by (auto simp: Let_def split: if_splits)
    from tail [OF this Cons.prems(2)] show ?thesis .
  next
    case False
    with Cons.prems(1) obtain r rest where r: "compute_compatibility (u_traits u) (u_traits v) cfg = Some r"
      and rest: "candidates_for cfg rp bp u vs = Some rest"
      and cs: "cs = \<lparr> mc_user_id = user_id u, mc_matched_user_id = user_id v,
                  mc_score_total = score_total r, mc_score_breakdown = r \<rparr> # rest"
      by (auto simp: Let_def bind_eq_Some_conv)
    show ?thesis
    proof (cases "c \<in> set rest")
      case True
      from tail [OF rest True] show ?thesis .
    next
      case c: False
      with cs Cons.prems(2) have "c = \<lparr> mc_user_id = user_id u, mc_matched_user_id = user_id v,
                  mc_score_total = score_total r, mc_score_breakdown = r \<rparr>" by simp
      with False r have "?P v" by simp
      then show ?thesis by (intro exI [of _ 0]) simp
    qed
  qed
qed

lemma gender_compatible_mutual:
  "gender_preference_compatible u v \<Longrightarrow> mutually_seeking u v"
  by (auto simp: gender_preference_compatible_def mutually_seeking_def Let_def normalize_gender_def
      split: if_splits option.splits)

lemma build_candidate_pairs_sound:
  "build_candidate_pairs users cfg rp bp = Some cs \<Longrightarrow> c \<in> set cs \<Longrightarrow>
   \<exists>i j. i < j \<and> j < length users
      \<and> mc_user_id c = user_id (users ! i) \<and> mc_matched_user_id c = user_id (users ! j)
      \<and> canonical_pair (user_id (users ! i)) (user_id (users ! j)) \<notin> rp
      \<and> canonical_pair (user_id (users ! i)) (user_id (users ! j)) \<notin> bp
      \<and> gender_preference_compatible (users ! i) (users ! j)
      \<and> compute_compatibility (u_traits (users ! i)) (u_traits (users ! j)) cfg
          = Some (mc_score_breakdown c)
      \<and> mc_score_total c = score_total (mc_score_breakdown c)"
proof (induction users arbitrary: cs)
  case Nil then show ?case by simp
next
  case (Cons u us)
  from Cons.prems(1) obtain first rest where first: "candidates_for cfg rp bp u us = Some first"
    and rest: "build_candidate_pairs us cfg rp bp = Some rest" and cs: "cs = first @ rest"
    by (auto simp: bind_eq_Some_conv)
  show ?case
  proof (cases "c \<in> set first")
    case True
    from candidates_for_sound [OF first True] obtain j where "j < length us"
      "mc_user_id c = user_id u \<and> mc_matched_user_id c = user_id (us ! j)
      \<and> canonical_pair (user_id u) (user_id (us ! j)) \<notin> rp
      \<and> canonical_pair (user_id u) (user_id (us ! j)) \<notin> bp
      \<and> gender_preference_compatible u (us ! j)
      \<and> compute_compatibility (u_traits u) (u_traits (us ! j)) cfg = Some (mc_score_breakdown c)
      \<and> mc_score_total c = score_total (mc_score_breakdown c)"
      by blast
    then show ?thesis
      by (intro exI [of _ 0] exI [of _ "Suc j"]) simp
  next
    case False
    with Cons.prems(2) cs have "c \<in> set rest" by simp
    from Cons.IH [OF rest this] obtain i j where "i < j" "j < length us"
      "mc_user_id c = user_id (us ! i) \<and> mc_matched_user_id c = user_id (us ! j)
      \<and> canonical_pair (user_id (us ! i)) (user_id (us ! j)) \<notin> rp
      \<and> canonical_pair (user_id (us ! i)) (user_id (us ! j)) \<notin> bp
      \<and> gender_preference_compatible (us ! i) (us ! j)
      \<and> compute_compatibility (u_traits (us ! i)) (u_traits (us ! j)) cfg
          = Some (mc_score_breakdown c)
      \<and> mc_score_total c = score_total (mc_score_breakdown c)"
      by blast
    then show ?thesis
      by (intro exI [of _ "Suc i"] exI [of _ "Suc j"]) simp
  qed
qed

text \<open>
  C4: every pair emitted by \<open>build_candidate_pairs\<close> comes from two pool entries \<open>i < j\<close>;
  its canonical form (which does not depend on the order of the two ids) is in neither the
  recency set nor the blocked set; and the two users are mutually gender-preference
  compatible, where an empty or unset identity or seeking set excludes the pair.
\<close>

theorem candidate_pairs_respect_exclusions:
  assumes "build_candidate_pairs users cfg recent_pairs blocked_pairs = Some cs"
    and "c \<in> set cs"
  shows "canonical_pair (mc_user_id c) (mc_matched_user_id c) \<notin> recent_pairs
       \<and> canonical_pair (mc_user_id c) (mc_matched_user_id c) \<notin> blocked_pairs
       \<and> canonical_pair (mc_matched_user_id c) (mc_user_id c)
           = canonical_pair (mc_user_id c) (mc_matched_user_id c)
       \<and> (\<exists>i j. i < j \<and> j < length users
             \<and> mc_user_id c = user_id (users ! i) \<and> mc_matched_user_id c = user_id (users ! j)
             \<and> mutually_seeking (users ! i) (users ! j))"
  using build_candidate_pairs_sound [OF assms] gender_compatible_mutual
  by (auto simp: canonical_pair_def min.commute max.commute)

lemma normalize_gender_examples: "normalize_gender (Some '' Man '') = Some ''man''"
  "normalize_gender (Some ''Woman'') = Some ''woman''"
  "normalize_gender (Some ''woman'') = Some ''woman''"
  "normalize_gender (Some ''man'') = Some ''man''"
  "normalize_gender None = None"
  by (simp_all add: normalize_gender_def py_strip_def py_lower_def py_lower_char_def py_isspace_def Let_def)

lemma cand_ab_in:
  "build_candidate_pairs [man_a, woman_b, woman_c] Map.empty {(''a'', ''c'')} {(''b'', ''c'')}
   = Some [cand_ab]"
proof -
  from compute_empty_traits obtain r where
    "compute_compatibility empty_traits empty_traits Map.empty = Some r" by blast
  then show ?thesis
    by (simp add: man_a_def woman_b_def woman_c_def cand_ab_def Let_def canonical_pair_def
        gender_preference_compatible_def parse_seeking_def normalize_gender_examples
        List.map_filter_simps)
qed

theorem candidate_pairs_respect_exclusions_witness:
  "build_candidate_pairs [man_a, woman_b, woman_c] Map.empty {(''a'', ''c'')} {(''b'', ''c'')}
     = Some [cand_ab]
   \<and> cand_ab \<in> set [cand_ab]
   \<and> canonical_pair (mc_user_id cand_ab) (mc_matched_user_id cand_ab) \<notin> {(''a'', ''c'')}
   \<and> canonical_pair (mc_user_id cand_ab) (mc_matched_user_id cand_ab) \<notin> {(''b'', ''c'')}
   \<and> mutually_seeking man_a woman_b"
proof -
  have m: "cand_ab \<in> set [cand_ab]" by simp
  from candidate_pairs_respect_exclusions [OF cand_ab_in m] obtain i j where "i < j" "j < 3"
    "mc_user_id cand_ab = user_id ([man_a, woman_b, woman_c] ! i)"
    "mc_matched_user_id cand_ab = user_id ([man_a, woman_b, woman_c] ! j)"
    "mutually_seeking ([man_a, woman_b, woman_c] ! i) ([man_a, woman_b, woman_c] ! j)"
    by auto
  moreover from this have "i = 0 \<and> j = 1"
    by (cases i; cases j) (auto simp: cand_ab_def man_a_def woman_b_def woman_c_def nth_Cons split: nat.splits)
  ultimately have "mutually_seeking man_a woman_b" by simp
  with cand_ab_in candidate_pairs_respect_exclusions [OF cand_ab_in m] show ?thesis by simp
qed

section \<open>Properties of the bipartite matching\<close>

lemma proposed_update:
  assumes "map_of next_idx m = Some i" "i < length (prefs_get prefs m)"
  shows "proposed prefs (AList.update m (Suc i) next_idx) m' w'
         \<longleftrightarrow> proposed prefs next_idx m' w' \<or> (m' = m \<and> w' = prefs_get prefs m ! i)"
proof (cases "m' = m")
  case True
  show ?thesis
  proof
    assume "proposed prefs (AList.update m (Suc i) next_idx) m' w'"
    then obtain j where j: "j < Suc i" "j < length (prefs_get prefs m)" "prefs_get prefs m ! j = w'"
      using True by (auto simp: proposed_def update_conv')
    show "proposed prefs next_idx m' w' \<or> (m' = m \<and> w' = prefs_get prefs m ! i)"
    proof (cases "j = i")
      case True
      with j \<open>m' = m\<close> show ?thesis by simp
    next
      case False
      with j have "j < i" by simp
      with j assms \<open>m' = m\<close> have "proposed prefs next_idx m' w'"
        unfolding proposed_def by blast
      then show ?thesis ..
    qed
  next
    assume "proposed prefs next_idx m' w' \<or> (m' = m \<and> w' = prefs_get prefs m ! i)"
    then show "proposed prefs (AList.update m (Suc i) next_idx) m' w'"
    proof
      assume "proposed prefs next_idx m' w'"
      then obtain j where "j < i" "j < length (prefs_get prefs m)" "prefs_get prefs m ! j = w'"
        using True assms by (auto simp: proposed_def)
      then have "j < Suc i" by simp
      with \<open>j < length (prefs_get prefs m)\<close> \<open>prefs_get prefs m ! j = w'\<close> True
      show ?thesis unfolding proposed_def update_conv' by auto
    next
      assume "m' = m \<and> w' = prefs_get prefs m ! i"
      with assms show ?thesis unfolding proposed_def update_conv' by auto
    qed
  qed
next
  case False
  then show ?thesis by (auto simp: proposed_def update_conv')
qed

lemma women_rank_Some:
  "women_rank prefs women w = Some rm \<longleftrightarrow> w \<in> set women \<and> rm = rank_map_of (prefs_get prefs w)"
  by (auto simp: women_rank_def)

lemma women_rank_None: "women_rank prefs women w = None \<longleftrightarrow> w \<notin> set women"
  by (auto simp: women_rank_def)

lemma gs_inv_skip:
  assumes "gs_inv prefs women next_idx engaged_to"
    "map_of next_idx m = Some i" "i < length (prefs_get prefs m)"
    "prefs_get prefs m ! i \<notin> set women"
  shows "gs_inv prefs women (AList.update m (Suc i) next_idx) engaged_to"
  using assms(1,4) unfolding gs_inv_def proposed_update [OF assms(2,3)] by blast

lemma gs_inv_accept:
  assumes inv: "gs_inv prefs women next_idx engaged_to"
    and i: "map_of next_idx m = Some i" "i < length (prefs_get prefs m)"
    and w: "prefs_get prefs m ! i \<in> set women"
    and free: "map_of engaged_to (prefs_get prefs m ! i) = None"
  shows "gs_inv prefs women (AList.update m (Suc i) next_idx)
           (AList.update (prefs_get prefs m ! i) m engaged_to)"
  unfolding gs_inv_def proposed_update [OF i] update_conv'
proof (intro conjI allI impI)
  fix m1 w1
  assume a: "(proposed prefs next_idx m1 w1 \<or> m1 = m \<and> w1 = prefs_get prefs m ! i)
             \<and> w1 \<in> set women"
  show "\<exists>m'. ((map_of engaged_to)(prefs_get prefs m ! i \<mapsto> m)) w1 = Some m'
            \<and> \<not> rk prefs w1 m1 < rk prefs w1 m'"
  proof (cases "w1 = prefs_get prefs m ! i")
    case True
    have "\<not> proposed prefs next_idx m1 w1"
      using inv free w True unfolding gs_inv_def by fastforce
    with a True show ?thesis by auto
  next
    case False
    with a inv show ?thesis unfolding gs_inv_def by auto
  qed
next
  fix w1 m1
  assume "((map_of engaged_to)(prefs_get prefs m ! i \<mapsto> m)) w1 = Some m1"
  with inv w show "proposed prefs next_idx m1 w1 \<or> m1 = m \<and> w1 = prefs_get prefs m ! i"
    unfolding gs_inv_def by (auto split: if_splits)
next
  fix w1 m1
  assume "((map_of engaged_to)(prefs_get prefs m ! i \<mapsto> m)) w1 = Some m1"
  with inv w show "w1 \<in> set women"
    unfolding gs_inv_def by (auto split: if_splits)
qed

lemma gs_inv_swap:
  assumes inv: "gs_inv prefs women next_idx engaged_to"
    and i: "map_of next_idx m = Some i" "i < length (prefs_get prefs m)"
    and w: "prefs_get prefs m ! i \<in> set women"
    and cur: "map_of engaged_to (prefs_get prefs m ! i) = Some current"
    and better: "rk prefs (prefs_get prefs m ! i) m < rk prefs (prefs_get prefs m ! i) current"
  shows "gs_inv prefs women (AList.update m (Suc i) next_idx)
           (AList.update (prefs_get prefs m ! i) m engaged_to)"
  unfolding gs_inv_def proposed_update [OF i] update_conv'
proof (intro conjI allI impI)
  fix m1 w1
  assume a: "(proposed prefs next_idx m1 w1 \<or> m1 = m \<and> w1 = prefs_get prefs m ! i)
             \<and> w1 \<in> set women"
  show "\<exists>m'. ((map_of engaged_to)(prefs_get prefs m ! i \<mapsto> m)) w1 = Some m'
            \<and> \<not> rk prefs w1 m1 < rk prefs w1 m'"
  proof (cases "w1 = prefs_get prefs m ! i")
    case True
    show ?thesis
    proof (cases "proposed prefs next_idx m1 w1")
      case True
      with inv a cur \<open>w1 = prefs_get prefs m ! i\<close>
      have "\<not> rk prefs w1 m1 < rk prefs w1 current"
        unfolding gs_inv_def by fastforce
      with better \<open>w1 = prefs_get prefs m ! i\<close> show ?thesis by auto
    next
      case False
      with a \<open>w1 = prefs_get prefs m ! i\<close> show ?thesis by auto
    qed
  next
    case False
    with a inv show ?thesis unfolding gs_inv_def by auto
  qed
next
  fix w1 m1
  assume "((map_of engaged_to)(prefs_get prefs m ! i \<mapsto> m)) w1 = Some m1"
  with inv w show "proposed prefs next_idx m1 w1 \<or> m1 = m \<and> w1 = prefs_get prefs m ! i"
    unfolding gs_inv_def by (auto split: if_splits)
next
  fix w1 m1
  assume "((map_of engaged_to)(prefs_get prefs m ! i \<mapsto> m)) w1 = Some m1"
  with inv w show "w1 \<in> set women"
    unfolding gs_inv_def by (auto split: if_splits)
qed

lemma gs_inv_reject:
  assumes "gs_inv prefs women next_idx engaged_to"
    "map_of next_idx m = Some i" "i < length (prefs_get prefs m)"
    "prefs_get prefs m ! i \<in> set women" "map_of engaged_to (prefs_get prefs m ! i) = Some current"
    "\<not> rk prefs (prefs_get prefs m ! i) m < rk prefs (prefs_get prefs m ! i) current"
  shows "gs_inv prefs women (AList.update m (Suc i) next_idx) engaged_to"
  using assms(1,4,5,6) unfolding gs_inv_def proposed_update [OF assms(2,3)]
  by (auto split: if_splits)

lemma gs_loop_inv:
  "gs_inv prefs women next_idx engaged_to \<Longrightarrow>
   gs_loop prefs women next_idx engaged_to free = Some out \<Longrightarrow>
   \<exists>next_idx'. gs_inv prefs women next_idx' out"
proof (induction prefs women next_idx engaged_to free rule: gs_loop.induct)
  case (1 prefs women next_idx engaged_to)
  then show ?case by auto
next
  case (2 prefs women next_idx engaged_to m free)
  from "2.prems"(2) obtain i where i: "map_of next_idx m = Some i"
    by (auto split: option.splits)
  let ?p = "prefs_get prefs m"
  show ?case
  proof (cases "length ?p \<le> i")
    case True
    with "2.prems" i "2.IH"(1) [OF i refl True] show ?thesis by simp
  next
    case False
    then have lt: "i < length ?p" by simp
    let ?w = "?p ! i"
    let ?n = "AList.update m (Suc i) next_idx"
    show ?thesis
    proof (cases "women_rank prefs women ?w")
      case None
      then have "?w \<notin> set women" by (simp add: women_rank_None)
      from gs_inv_skip [OF "2.prems"(1) i lt this] "2.prems"(2) i False None
        "2.IH"(2) [OF i refl False refl refl None]
      show ?thesis by (simp add: Let_def)
    next
      case (Some rm)
      then have w: "?w \<in> set women" and rm: "rm = rank_map_of (prefs_get prefs ?w)"
        by (simp_all add: women_rank_Some)
      show ?thesis
      proof (cases "map_of engaged_to ?w")
        case None
        from gs_inv_accept [OF "2.prems"(1) i lt w None] "2.prems"(2) i False Some None
          "2.IH"(3) [OF i refl False refl refl Some None]
        show ?thesis by (simp add: Let_def)
      next
        case (Some current)
        note cur = Some
        show ?thesis
        proof (cases "rank_get rm m < rank_get rm current")
          case True
          then have "rk prefs ?w m < rk prefs ?w current" by (simp add: rk_def rm)
          from gs_inv_swap [OF "2.prems"(1) i lt w cur this] "2.prems"(2) i False \<open>women_rank prefs women ?w = Some rm\<close> cur True
            "2.IH"(4) [OF i refl False refl refl \<open>women_rank prefs women ?w = Some rm\<close> cur True]
          show ?thesis by (simp add: Let_def)
        next
          case False
          then have "\<not> rk prefs ?w m < rk prefs ?w current" by (simp add: rk_def rm)
          from gs_inv_reject [OF "2.prems"(1) i lt w cur this] "2.prems"(2) i \<open>\<not> length ?p \<le> i\<close> \<open>women_rank prefs women ?w = Some rm\<close> cur False
            "2.IH"(5) [OF i refl \<open>\<not> length ?p \<le> i\<close> refl refl \<open>women_rank prefs women ?w = Some rm\<close> cur False]
          show ?thesis by (simp add: Let_def)
        qed
      qed
    qed
  qed
qed

lemma rank_fold_notin:
  "x \<notin> set l \<Longrightarrow> fold (\<lambda>(i, m) acc. acc(m \<mapsto> i)) (enumerate n l) acc x = acc x"
  by (induction l arbitrary: n acc) auto

lemma rank_fold_distinct_gen:
  assumes F: "\<And>i m acc. F (i, m) acc = acc(m \<mapsto> i)"
  shows "distinct l \<Longrightarrow> i < length l \<Longrightarrow> fold F (enumerate n l) acc (l ! i) = Some (n + i)"
proof (induction l arbitrary: n acc i)
  case Nil then show ?case by simp
next
  case (Cons y ys)
  have notin: "fold F (enumerate k ys) a y = a y" for k a
    using Cons.prems(1) by (induction ys arbitrary: k a) (auto simp: F)
  show ?case
  proof (cases i)
    case 0
    then show ?thesis by (simp add: F notin)
  next
    case (Suc j)
    from Cons.prems Suc have j: "distinct ys" "j < length ys" by simp_all
    have "fold F (enumerate n (y # ys)) acc ((y # ys) ! i)
        = fold F (enumerate (Suc n) ys) (acc(y \<mapsto> n)) (ys ! j)"
      using Suc by (simp add: F)
    also have "\<dots> = Some (Suc n + j)" by (rule Cons.IH [OF j])
    finally show ?thesis using Suc by simp
  qed
qed

lemma rank_fold_distinct:
  "distinct l \<Longrightarrow> i < length l \<Longrightarrow>
   fold (\<lambda>(i, m) acc. acc(m \<mapsto> i)) (enumerate n l) acc (l ! i) = Some (n + i)"
  by (rule rank_fold_distinct_gen) simp_all

lemma rank_get_distinct:
  "distinct l \<Longrightarrow> i < length l \<Longrightarrow> rank_get (rank_map_of l) (l ! i) = i"
  by (simp add: rank_get_def rank_map_of_def rank_fold_distinct)

lemma rank_get_notin:
  "x \<notin> set l \<Longrightarrow> rank_get (rank_map_of l) x = 10 ^ 9"
  by (simp add: rank_get_def rank_map_of_def rank_fold_notin)

lemma takeWhile_index_le:
  "j < length l \<Longrightarrow> \<not> P (l ! j) \<Longrightarrow> length (takeWhile P l) \<le> j"
proof (induction l arbitrary: j)
  case Nil then show ?case by simp
next
  case (Cons a l)
  then show ?case by (cases j) auto
qed

lemma prefers_index:
  assumes "prefers l x y"
  obtains i where "i < length l" "l ! i = x" "i < length (takeWhile (\<lambda>z. z \<noteq> y) l)"
proof -
  from assms obtain i where i: "i < length (takeWhile (\<lambda>z. z \<noteq> y) l)"
      "takeWhile (\<lambda>z. z \<noteq> y) l ! i = x"
    by (auto simp: prefers_def in_set_conv_nth)
  have "length (takeWhile (\<lambda>z. z \<noteq> y) l) \<le> length l" by (rule length_takeWhile_le)
  with i have "i < length l" by simp
  moreover from i have "l ! i = x" by (simp add: takeWhile_nth)
  ultimately show ?thesis using i(1) that by blast
qed

lemma prefers_rank_less:
  assumes "prefers l x y" "distinct l" "length l \<le> 10 ^ 9"
  shows "rank_get (rank_map_of l) x < rank_get (rank_map_of l) y"
proof -
  from assms(1) obtain i where i: "i < length l" "l ! i = x"
      "i < length (takeWhile (\<lambda>z. z \<noteq> y) l)"
    by (rule prefers_index)
  from i assms(2) have rx: "rank_get (rank_map_of l) x = i"
    using rank_get_distinct by blast
  show ?thesis
  proof (cases "y \<in> set l")
    case True
    then obtain j where j: "j < length l" "l ! j = y" by (auto simp: in_set_conv_nth)
    then have "length (takeWhile (\<lambda>z. z \<noteq> y) l) \<le> j"
      by (intro takeWhile_index_le) simp_all
    with i have "i < j" by simp
    moreover from j assms(2) have "rank_get (rank_map_of l) y = j"
      using rank_get_distinct by blast
    ultimately show ?thesis using rx by simp
  next
    case False
    then have "rank_get (rank_map_of l) y = 10 ^ 9" by (rule rank_get_notin)
    with rx i assms(3) show ?thesis by simp
  qed
qed

lemma prefers_proposed:
  assumes "proposed prefs next_idx m w'" "prefers (prefs_get prefs m) w w'"
  shows "proposed prefs next_idx m w"
proof -
  let ?l = "prefs_get prefs m"
  from assms(1) obtain i' k where k: "map_of next_idx m = Some k" "i' < k" "i' < length ?l" "?l ! i' = w'"
    by (auto simp: proposed_def)
  from assms(2) obtain j where j: "j < length ?l" "?l ! j = w"
      "j < length (takeWhile (\<lambda>z. z \<noteq> w') ?l)"
    by (rule prefers_index)
  from k have "length (takeWhile (\<lambda>z. z \<noteq> w') ?l) \<le> i'"
    by (intro takeWhile_index_le) simp_all
  with j k have "j < k" by simp
  with j k show ?thesis unfolding proposed_def by blast
qed

lemma gs_inv_stable:
  assumes inv: "gs_inv prefs women next_idx engaged_to"
    and wl: "\<forall>w\<in>set women. distinct (prefs_get prefs w) \<and> length (prefs_get prefs w) \<le> 10 ^ 9"
    and e1: "map_of engaged_to w' = Some m" and e2: "map_of engaged_to w = Some m'"
    and p1: "prefers (prefs_get prefs m) w w'" and p2: "prefers (prefs_get prefs w) m m'"
  shows False
proof -
  from inv e1 have pw: "proposed prefs next_idx m w'" unfolding gs_inv_def by blast
  have pm: "proposed prefs next_idx m w" by (rule prefers_proposed [OF pw p1])
  from inv e2 have w: "w \<in> set women" unfolding gs_inv_def by blast
  with inv pm e2 have "\<not> rk prefs w m < rk prefs w m'" unfolding gs_inv_def by fastforce
  moreover from w wl p2 have "rk prefs w m < rk prefs w m'"
    unfolding rk_def by (intro prefers_rank_less) auto
  ultimately show False by contradiction
qed

lemma dom_update_present:
  "map_of al k = Some v \<Longrightarrow> dom (map_of (AList.update k v' al)) = dom (map_of al)"
  by (auto simp: update_conv')

lemma ran_upd_subset: "ran (m(k \<mapsto> v)) \<subseteq> insert v (ran m)"
  by (auto simp: ran_def)

lemma gs_keys_exhausted: "gs_keys n e (m # f) \<Longrightarrow> gs_keys n e f"
  by (simp add: gs_keys_def)

lemma gs_keys_requeue:
  "gs_keys n e (m # f) \<Longrightarrow> map_of n m = Some i \<Longrightarrow> gs_keys (AList.update m (Suc i) n) e (f @ [m])"
  by (simp add: gs_keys_def dom_update_present)

lemma gs_keys_accept:
  assumes "gs_keys n e (m # f)" "map_of n m = Some i"
  shows "gs_keys (AList.update m (Suc i) n) (AList.update w m e) f"
proof -
  have "ran (map_of (AList.update w m e)) \<subseteq> insert m (ran (map_of e))"
    by (simp add: update_conv' ran_upd_subset)
  with assms show ?thesis
    by (auto simp: gs_keys_def dom_update_present distinct_update)
qed

lemma gs_keys_swap:
  assumes "gs_keys n e (m # f)" "map_of n m = Some i" "map_of e w = Some current"
  shows "gs_keys (AList.update m (Suc i) n) (AList.update w m e) (f @ [current])"
proof -
  have "ran (map_of (AList.update w m e)) \<subseteq> insert m (ran (map_of e))"
    by (simp add: update_conv' ran_upd_subset)
  moreover from assms(3) have "current \<in> ran (map_of e)" by (auto simp: ran_def)
  ultimately show ?thesis using assms(1,2)
    by (auto simp: gs_keys_def dom_update_present distinct_update)
qed

lemma gs_loop_keys:
  "gs_keys next_idx engaged_to free \<Longrightarrow>
   \<exists>out. gs_loop prefs women next_idx engaged_to free = Some out
      \<and> distinct (map fst out) \<and> ran (map_of out) \<subseteq> dom (map_of next_idx)"
proof (induction prefs women next_idx engaged_to free rule: gs_loop.induct)
  case (1 prefs women next_idx engaged_to)
  then show ?case by (simp add: gs_keys_def)
next
  case (2 prefs women next_idx engaged_to m free)
  from "2.prems" obtain i where i: "map_of next_idx m = Some i"
    by (auto simp: gs_keys_def)
  let ?p = "prefs_get prefs m"
  show ?case
  proof (cases "length ?p \<le> i")
    case True
    with i "2.IH"(1) [OF i refl True gs_keys_exhausted [OF "2.prems"]] show ?thesis by simp
  next
    case False
    let ?w = "?p ! i"
    let ?n = "AList.update m (Suc i) next_idx"
    have d: "dom (map_of ?n) = dom (map_of next_idx)" by (rule dom_update_present [OF i])
    show ?thesis
    proof (cases "women_rank prefs women ?w")
      case None
      from "2.IH"(2) [OF i refl False refl refl None gs_keys_requeue [OF "2.prems" i]] i False None d
      show ?thesis by (simp add: Let_def)
    next
      case (Some rm)
      note rm = Some
      show ?thesis
      proof (cases "map_of engaged_to ?w")
        case None
        from "2.IH"(3) [OF i refl False refl refl rm None gs_keys_accept [OF "2.prems" i]]
          i False rm None d
        show ?thesis by (simp add: Let_def)
      next
        case (Some current)
        note cur = Some
        show ?thesis
        proof (cases "rank_get rm m < rank_get rm current")
          case True
          from "2.IH"(4) [OF i refl False refl refl rm cur True gs_keys_swap [OF "2.prems" i cur]]
            i False rm cur True d
          show ?thesis by (simp add: Let_def)
        next
          case lt: False
          from "2.IH"(5) [OF i refl False refl refl rm cur lt gs_keys_requeue [OF "2.prems" i]]
            i False rm cur lt d
          show ?thesis by (simp add: Let_def)
        qed
      qed
    qed
  qed
qed

lemma gs_inv_init: "gs_inv prefs women (map (\<lambda>m. (m, 0)) men) []"
  by (auto simp: gs_inv_def proposed_def map_of_map_restrict restrict_map_def split: if_splits)

lemma gs_keys_init: "gs_keys (map (\<lambda>m. (m, 0)) men) [] men"
  by (auto simp: gs_keys_def dom_map_of_conv_image_fst image_image)

lemma prefers_in_set: "prefers l x y \<Longrightarrow> x \<in> set l"
  by (auto simp: prefers_def dest: set_takeWhileD)

lemma example_sides:
  "men_of [man_a, woman_b, woman_c, man_d] = [''a'', ''d'']"
  "women_of [man_a, woman_b, woman_c, man_d] = [''b'', ''c'']"
  by (simp_all add: men_of_def women_of_def man_a_def woman_b_def woman_c_def man_d_def
      normalize_gender_examples)

lemma example_prefs_get:
  "prefs_get example_prefs ''a'' = [''b'', ''c'']" "prefs_get example_prefs ''d'' = [''b'']"
  "prefs_get example_prefs ''b'' = [''d'', ''a'']" "prefs_get example_prefs ''c'' = [''a'']"
  by (simp_all add: prefs_get_def example_prefs_def)

lemma example_ranks:
  "rank_get (rank_map_of [''d'', ''a'']) ''d'' = 0" "rank_get (rank_map_of [''d'', ''a'']) ''a'' = 1"
  by (simp_all add: rank_get_def rank_map_of_def)

lemma example_match:
  "stable_bipartite_match [man_a, woman_b, woman_c, man_d] example_prefs
   = Some [(''d'', ''b''), (''a'', ''c'')]"
  by (simp add: stable_bipartite_match_def example_sides example_prefs_get women_rank_def
      example_ranks Let_def)

text \<open>
  C3: on a bipartite pool the matching has no blocking pair. For every pool and all
  preference lists that are two-sided and in which no woman's list repeats an id (or is
  longer than the sentinel rank \<open>10**9\<close>), as is the case for lists built from the
  candidates of such a pool, \<open>_stable_bipartite_match\<close> returns, and no two users who are
  both matched strictly prefer each other, by their own lists, to a partner they have.
\<close>

theorem bipartite_match_has_no_blocking_pair:
  assumes ts: "two_sided users prefs"
    and wl: "\<forall>w \<in> set (women_of users).
               distinct (prefs_get prefs w) \<and> length (prefs_get prefs w) \<le> 10 ^ 9"
  shows "\<exists>out. stable_bipartite_match users prefs = Some out
           \<and> (\<forall>x y. \<not> blocking_pair prefs out x y)"
proof -
  let ?men = "men_of users" and ?women = "women_of users"
  let ?n0 = "map (\<lambda>m. (m, 0::nat)) ?men"
  from gs_loop_keys [OF gs_keys_init, of prefs ?women ?men] obtain eng where
    eng: "gs_loop prefs ?women ?n0 [] ?men = Some eng" and
    d: "distinct (map fst eng)" and r: "ran (map_of eng) \<subseteq> dom (map_of ?n0)" by blast
  from gs_loop_inv [OF gs_inv_init eng] obtain n' where inv: "gs_inv prefs ?women n' eng" by blast
  let ?out = "map (\<lambda>(w, m). (m, w)) eng"
  have out: "stable_bipartite_match users prefs = Some ?out"
    by (simp add: stable_bipartite_match_def eng)
  have mem: "(a, b) \<in> set ?out \<longleftrightarrow> map_of eng b = Some a" for a b
    using d by (auto simp: map_of_eq_Some_iff)
  have man: "a \<in> set ?men" if "map_of eng b = Some a" for a b
  proof -
    from that have "a \<in> ran (map_of eng)" by (auto simp: ran_def)
    with r have "a \<in> dom (map_of ?n0)" by blast
    then show ?thesis by (auto simp: dom_map_of_conv_image_fst)
  qed
  have woman: "b \<in> set ?women" if "map_of eng b = Some a" for a b
    using inv that unfolding gs_inv_def by blast
  have part: "p \<in> set (partners ?out x) \<longleftrightarrow> map_of eng p = Some x \<or> map_of eng x = Some p" for p x
    using mem by (auto simp: partners_def image_iff)
  have "\<not> blocking_pair prefs ?out x y" for x y
  proof
    assume "blocking_pair prefs ?out x y"
    then obtain px py where px: "map_of eng px = Some x \<or> map_of eng x = Some px"
      and py: "map_of eng py = Some y \<or> map_of eng y = Some py"
      and p1: "prefers (prefs_get prefs x) y px" and p2: "prefers (prefs_get prefs y) x py"
      by (auto simp: blocking_pair_def part)
    from p1 have yx: "y \<in> set (prefs_get prefs x)" by (rule prefers_in_set)
    from p2 have xy: "x \<in> set (prefs_get prefs y)" by (rule prefers_in_set)
    from px show False
    proof
      assume x: "map_of eng px = Some x"
      from py show False
      proof
        assume "map_of eng py = Some y"
        with x have "x \<in> set ?men" "y \<in> set ?men" by (auto dest: man)
        with ts yx show False by (auto simp: two_sided_def)
      next
        assume "map_of eng y = Some py"
        from gs_inv_stable [OF inv wl x this p1 p2] show False .
      qed
    next
      assume x: "map_of eng x = Some px"
      from py show False
      proof
        assume "map_of eng py = Some y"
        from gs_inv_stable [OF inv wl this x p2 p1] show False .
      next
        assume "map_of eng y = Some py"
        with x have "x \<in> set ?women" "y \<in> set ?women" by (auto dest: woman)
        with ts yx show False by (auto simp: two_sided_def)
      qed
    qed
  qed
  with out show ?thesis by blast
qed

theorem bipartite_match_has_no_blocking_pair_witness:
  "stable_bipartite_match [man_a, woman_b, woman_c, man_d] example_prefs
     = Some [(''d'', ''b''), (''a'', ''c'')]
   \<and> \<not> blocking_pair example_prefs [(''d'', ''b''), (''a'', ''c'')] ''a'' ''b''"
proof -
  have "two_sided [man_a, woman_b, woman_c, man_d] example_prefs"
    by (simp add: two_sided_def example_sides example_prefs_get)
  moreover have "\<forall>w \<in> set (women_of [man_a, woman_b, woman_c, man_d]).
      distinct (prefs_get example_prefs w) \<and> length (prefs_get example_prefs w) \<le> 10 ^ 9"
    by (simp add: example_sides example_prefs_get)
  ultimately show ?thesis
    using bipartite_match_has_no_blocking_pair [of "[man_a, woman_b, woman_c, man_d]" example_prefs]
    by (simp add: example_match)
qed

section \<open>Properties of the trait computation\<close>




lemma legacy_never_missing: "compute_traits_legacy_v1 sd answers \<noteq> Inl (MissingAnswers codes)"
  by (simp add: compute_traits_legacy_v1_def)




section \<open>Properties of reconciliation\<close>










section \<open>Properties of the question index and of carrying answers forward\<close>


























section \<open>Properties of the state machine\<close>

text \<open>
  C9: once \<open>now \<ge> expires_at\<close>, every action applied to a \<open>proposed\<close> or \<open>revealed\<close>
  assignment yields \<open>expired\<close> (expiry wins over the requested action), and \<open>no_match\<close>
  is terminal: every action leaves it \<open>no_match\<close>, whatever the clock says.
\<close>

theorem transition_status_expiry_and_no_match:
  "(now \<ge> expires_at \<longrightarrow> current \<in> {''proposed'', ''revealed''} \<longrightarrow>
      transition_status current action now expires_at = ''expired'')
   \<and> transition_status ''no_match'' action now' expires_at' = ''no_match''"
  by (auto simp: transition_status_def)

theorem transition_status_expiry_and_no_match_witness:
  "(7::int) \<ge> 5 \<and> ''proposed'' \<in> {''proposed'', ''revealed''}
   \<and> transition_status ''proposed'' ''accept'' 7 5 = ''expired''
   \<and> transition_status ''no_match'' ''accept'' 7 5 = ''no_match''"
  using transition_status_expiry_and_no_match
    [where expires_at = 5 and now = 7 and current = "''proposed''" and action = "''accept''"
       and now' = 7 and expires_at' = 5]
  by simp

end
